theory Spec2Isabelle
  imports Complex_Main "HOL-Library.Signed_Division"
begin

section \<open>Polysynth: the voice synthesis engine of main.cpp\<close>

text \<open>
  Conventions of the embedding.
  \<^item> C++ \<^verbatim>\<open>float\<close> and \<^verbatim>\<open>double\<close> values are modelled as \<^typ>\<open>real\<close>: every operation is
    exact, so rounding, infinities and NaN are abstracted away. The theorems below are
    about the arithmetic the code writes down, not about its rounding error.
  \<^item> C++ \<^verbatim>\<open>int\<close> is modelled as \<^typ>\<open>int\<close> (notes are only stored and compared) and array
    indices as \<^typ>\<open>nat\<close>.
  \<^item> Global variables that a function writes are passed in and returned; a reference
    parameter is returned next to the function's result.
  \<^item> \<^verbatim>\<open>abs\<close> applied to a \<^verbatim>\<open>float\<close> is the floating-point overload that the C++
    \<^verbatim>\<open>math.h\<close> header provides.
\<close>

subsection \<open>Types (lines 13-44)\<close>

datatype Waveform = W_Sine | W_Saw | W_Square | W_Triangle

record ADSRCurve =
  attackTime :: real
  releaseTime :: real
  sustainAmount :: real
  decayTime :: real

record PolyphonicVoice =
  "note" :: int
  finishedPlaying :: bool
  freq :: real
  volume :: real
  pressTime :: real
  releaseTime :: real

text \<open>The default member initialisers of \<^verbatim>\<open>ADSRCurve\<close>; the code only ever uses this curve.\<close>

definition defaultCurve :: ADSRCurve where
  "defaultCurve =
     \<lparr>attackTime = 1 / 100, ADSRCurve.releaseTime = 1 / 10,
      sustainAmount = 8 / 10, decayTime = 65 / 100\<rparr>"

subsection \<open>Numeric helpers (lines 46-64)\<close>

definition min_d :: "real \<Rightarrow> real \<Rightarrow> real" where
  "min_d a b = (if a > b then b else a)"

definition max_d :: "real \<Rightarrow> real \<Rightarrow> real" where
  "max_d a b = (if a > b then a else b)"

definition clamp :: "real \<Rightarrow> real \<Rightarrow> real \<Rightarrow> real" where
  "clamp val mi ma = max_d (min_d val ma) mi"

definition lerp :: "real \<Rightarrow> real \<Rightarrow> real \<Rightarrow> real" where
  "lerp from to amt = from + ((to - from) * amt)"

text \<open>Truncation towards zero, as a mathematical integer.\<close>

definition truncToInt :: "real \<Rightarrow> int" where
  "truncToInt x = (if x < 0 then \<lceil>x\<rceil> else \<lfloor>x\<rfloor>)"

text \<open>
  The conversion \<^verbatim>\<open>(int)x\<close> of a floating value truncates towards zero into a 32-bit
  \<^verbatim>\<open>int\<close>. When the truncated value is outside \<open>[-2^31, 2^31)\<close> the conversion is
  undefined in C++; the model returns \<open>-2^31\<close> there, the value that the conversion
  instructions of x86 produce.
\<close>

definition castToInt :: "real \<Rightarrow> int" where
  "castToInt x =
     (if - (2 ^ 31) \<le> truncToInt x \<and> truncToInt x < 2 ^ 31 then truncToInt x
      else - (2 ^ 31))"

definition roundToInt :: "real \<Rightarrow> int" where
  "roundToInt val = castToInt (if val < 0 then val - 1 / 2 else val + 1 / 2)"

subsection \<open>Envelope (lines 66-78)\<close>

definition getADSAttenuation :: "ADSRCurve \<Rightarrow> real \<Rightarrow> real" where
  "getADSAttenuation curve time =
     (let decayStart = attackTime curve;
          decayProgress = clamp ((time - decayStart) / decayTime curve) 0 1;
          decayed = lerp 1 (sustainAmount curve) decayProgress
      in clamp (time / attackTime curve) 0 1 * decayed)"

definition getRAttenuation :: "ADSRCurve \<Rightarrow> real \<Rightarrow> real" where
  "getRAttenuation curve time =
     clamp (1 - (time / ADSRCurve.releaseTime curve)) 0 1 * sustainAmount curve"

subsection \<open>The voice pool (lines 80-81, 199-226)\<close>

definition NUM_VOICES :: nat where
  "NUM_VOICES = 16"

text \<open>
  \<^verbatim>\<open>PolyphonicVoice voices[NUM_VOICES];\<close> is a global without an initialiser: it has
  static storage duration and is zero-initialised, every field of every voice included.
\<close>

definition zeroVoice :: PolyphonicVoice where
  "zeroVoice =
     \<lparr>note = 0, finishedPlaying = False, freq = 0, volume = 0, pressTime = 0,
      releaseTime = 0\<rparr>"

definition initialVoices :: "PolyphonicVoice list" where
  "initialVoices = replicate NUM_VOICES zeroVoice"

text \<open>A \<^verbatim>\<open>for\<close> loop over the slots that returns at the first hit is \<^const>\<open>find\<close>.\<close>

definition getFreeVoiceIdx :: "PolyphonicVoice list \<Rightarrow> nat" where
  "getFreeVoiceIdx vs =
     (case find (\<lambda>i. finishedPlaying (vs ! i)) [0..<NUM_VOICES] of
        Some i \<Rightarrow> i
      | None \<Rightarrow> 0)"


definition noteAlreadyDown :: "PolyphonicVoice list \<Rightarrow> int \<Rightarrow> bool" where
  "noteAlreadyDown vs n =
     (case find (\<lambda>i. volume (vs ! i) > 0 \<and> note (vs ! i) = n) [0..<NUM_VOICES] of
        Some i \<Rightarrow> True
      | None \<Rightarrow> False)"

subsection \<open>Note events (lines 149-152, 377-406)\<close>

definition pitch :: "real \<Rightarrow> real" where
  "pitch p = (1059460646483 / 1000000000000) powr (p - 69) * 440"

definition setNoteOn :: "int \<Rightarrow> real \<Rightarrow> PolyphonicVoice list \<Rightarrow> PolyphonicVoice list" where
  "setNoteOn n currTime vs =
     (if noteAlreadyDown vs n then vs
      else
        let voiceSlot = getFreeVoiceIdx vs;
            v = vs ! voiceSlot;
            v = v\<lparr>note := n\<rparr>;
            v = v\<lparr>freq := pitch (real_of_int (note v))\<rparr>;
            v = v\<lparr>volume := 1\<rparr>;
            v = v\<lparr>pressTime := currTime\<rparr>;
            v = v\<lparr>finishedPlaying := False\<rparr>
        in vs[voiceSlot := v])"


subsection \<open>Global settings (lines 83-102, 243-244)\<close>

text \<open>
  The globals that the sample stage reads or writes. The master \<^verbatim>\<open>volume\<close> is named
  \<open>volume_g\<close>, since the voice has a field of the same name.
\<close>

record synth =
  voices :: "PolyphonicVoice list"
  unisonDetune :: bool
  unisonOrder :: int
  unisonDetuneAmount :: real
  crushBits :: real
  enableBitcrush :: bool
  goofyUnison :: bool
  enableCompressor :: bool
  volume_g :: real
  currWaveFunc :: Waveform
  lLpAccum :: real
  rLpAccum :: real

definition initialSynth :: synth where
  "initialSynth =
     \<lparr>voices = initialVoices, unisonDetune = False, unisonOrder = 16,
      unisonDetuneAmount = 25 / 10000, crushBits = 16, enableBitcrush = False,
      goofyUnison = False, enableCompressor = False, volume_g = 1,
      currWaveFunc = W_Sine, lLpAccum = 0, rLpAccum = 0\<rparr>"

subsection \<open>Bit-crush (lines 104-111)\<close>

definition bitcrush :: "real \<Rightarrow> real \<Rightarrow> real" where
  "bitcrush val bits =
     (let distinctValues = 2 powr bits;
          crushedVal = (val + 1) * (1 / 2);
          intVal = roundToInt (crushedVal * distinctValues)
      in real_of_int intVal / distinctValues)"

subsection \<open>Wave functions (lines 117-144)\<close>

text \<open>
  C's \<^verbatim>\<open>fmod x y\<close> is \<open>x - n * y\<close>, where \<open>n\<close> is \<open>x / y\<close> truncated towards zero:
  the result has the sign of \<open>x\<close>.
\<close>

definition fmod :: "real \<Rightarrow> real \<Rightarrow> real" where
  "fmod x y = x - real_of_int (truncToInt (x / y)) * y"

definition saw :: "real \<Rightarrow> real \<Rightarrow> real" where
  "saw t fr = (fmod (t * fr) 1 * 2) - 1"

definition sine :: "real \<Rightarrow> real \<Rightarrow> real" where
  "sine t fr = sin (t * pi * fr * 2)"

definition square :: "real \<Rightarrow> real \<Rightarrow> real" where
  "square t fr = (if sine t fr > 0 then 1 else - 1)"

definition triangle :: "real \<Rightarrow> real \<Rightarrow> real" where
  "triangle t fr = \<bar>saw t fr\<bar> * 2 - 1"

fun waveFuncs :: "Waveform \<Rightarrow> real \<Rightarrow> real \<Rightarrow> real" where
  "waveFuncs W_Sine = sine"
| "waveFuncs W_Saw = saw"
| "waveFuncs W_Square = square"
| "waveFuncs W_Triangle = triangle"

subsection \<open>Unison detune (lines 154-196)\<close>

text \<open>
  \<^verbatim>\<open>unisonOrder / 2\<close> divides two \<^verbatim>\<open>int\<close>s and truncates towards zero (\<open>sdiv\<close>);
  \<^verbatim>\<open>detune / unisonOrder\<close> and \<^verbatim>\<open>voiceIdx / unisonOrder\<close> are floating divisions.
\<close>

definition getDetune :: "synth \<Rightarrow> real \<Rightarrow> real \<Rightarrow> real" where
  "getDetune s voiceIdx detune =
     (let perVoiceDetune = detune / real_of_int (unisonOrder s)
      in if goofyUnison s
         then (voiceIdx - real_of_int (unisonOrder s sdiv 2)) * perVoiceDetune
         else voiceIdx * (sin (voiceIdx / real_of_int (unisonOrder s)) * detune))"

definition getUnisonVoicePan :: "synth \<Rightarrow> real \<Rightarrow> real" where
  "getUnisonVoicePan s voiceIdx = (voiceIdx / real_of_int (unisonOrder s)) * 2 - 1"

definition panToLVol :: "real \<Rightarrow> real" where
  "panToLVol pan = (if pan < 0 then 1 else 1 - pan)"

definition panToRVol :: "real \<Rightarrow> real" where
  "panToRVol pan = (if pan > 0 then 1 else 1 + pan)"

text \<open>The sample of tap \<open>i\<close>: the first statement of the loop body of \<^verbatim>\<open>doUnisonDetune\<close>.\<close>

definition unisonVoiceSample ::
  "synth \<Rightarrow> real \<Rightarrow> real \<Rightarrow> (real \<Rightarrow> real \<Rightarrow> real) \<Rightarrow> nat \<Rightarrow> real" where
  "unisonVoiceSample s t fr waveFunc i =
     (if \<not> goofyUnison s
      then waveFunc t (fr + (fr * getDetune s (real i) (unisonDetuneAmount s)))
      else waveFunc t (fr + (fr * getDetune s (real i)
                                     (unisonDetuneAmount s / real_of_int (unisonOrder s)))))"

text \<open>One pass of the loop body: the tap is panned and added to both outputs.\<close>

definition unisonStep ::
  "synth \<Rightarrow> real \<Rightarrow> real \<Rightarrow> (real \<Rightarrow> real \<Rightarrow> real) \<Rightarrow> nat \<Rightarrow> real \<times> real \<Rightarrow> real \<times> real" where
  "unisonStep s t fr waveFunc i outs =
     (let voiceSample = unisonVoiceSample s t fr waveFunc i;
          pan = getUnisonVoicePan s (real i)
      in (fst outs + voiceSample * panToLVol pan, snd outs + voiceSample * panToRVol pan))"

text \<open>
  The loop runs for \<open>i = 0, \<dots>, unisonOrder - 1\<close> (not at all when \<open>unisonOrder \<le> 0\<close>);
  both outputs are then divided by the order.
\<close>

definition doUnisonDetune ::
  "synth \<Rightarrow> real \<times> real \<Rightarrow> real \<Rightarrow> real \<Rightarrow> (real \<Rightarrow> real \<Rightarrow> real) \<Rightarrow> real \<times> real" where
  "doUnisonDetune s outs t fr waveFunc =
     (let outs' = fold (unisonStep s t fr waveFunc) [0..<nat (unisonOrder s)] outs
      in (fst outs' / real_of_int (unisonOrder s), snd outs' / real_of_int (unisonOrder s)))"

subsection \<open>Low-pass and compressor (lines 228-239)\<close>

text \<open>
  \<^verbatim>\<open>lowpass\<close> writes its first parameter, a reference: the model returns the new
  value of that parameter and the function's result.
\<close>

definition lowpass :: "real \<Rightarrow> real \<Rightarrow> real \<Rightarrow> real \<times> real" where
  "lowpass accum val q = (let accum' = accum - (q * (accum - val)) in (accum', accum'))"

text \<open>
  \<^verbatim>\<open>compressor(float& accum, float val, float magic)\<close> calls
  \<^verbatim>\<open>lowpass(val, accum, magic)\<close>: the reference that \<^verbatim>\<open>lowpass\<close> writes is bound to the
  local \<^verbatim>\<open>val\<close>, and \<^verbatim>\<open>accum\<close> is passed by value. The model returns the value of
  \<^verbatim>\<open>accum\<close> after the call and the function's result.
\<close>

definition compressor :: "real \<Rightarrow> real \<Rightarrow> real \<Rightarrow> real \<times> real" where
  "compressor accum val magic =
     (let (val', filtered) = lowpass val accum magic;
          peak = \<bar>filtered\<bar>
      in (accum, (1 - peak) * val'))"

subsection \<open>The per-voice sample stage (lines 241-292)\<close>

text \<open>Returns the pair \<open>(lOut, rOut)\<close> and the globals after the call.\<close>

definition getVoiceSample :: "synth \<Rightarrow> nat \<Rightarrow> real \<Rightarrow> (real \<times> real) \<times> synth" where
  "getVoiceSample s voiceIdx sampleTime =
     (let v = voices s ! voiceIdx
      in if finishedPlaying v then ((0, 0), s)
         else
           let outs0 =
                 (if unisonDetune s
                  then doUnisonDetune s (0, 0) sampleTime (freq v) (waveFuncs (currWaveFunc s))
                  else (waveFuncs (currWaveFunc s) sampleTime (freq v),
                        waveFuncs (currWaveFunc s) sampleTime (freq v)));
               curve = defaultCurve;
               attenuation =
                 (if volume v > 1 / 4
                  then getADSAttenuation curve (sampleTime - pressTime v)
                  else getRAttenuation curve (sampleTime - releaseTime v));
               v' =
                 (if volume v > 1 / 4 then v
                  else if attenuation = 0
                          \<or> sampleTime > releaseTime v + ADSRCurve.releaseTime curve
                       then v\<lparr>finishedPlaying := True\<rparr>
                       else v);
               lOut = fst outs0 * attenuation * volume_g s;
               rOut = snd outs0 * attenuation * volume_g s;
               lOut = (if enableBitcrush s then bitcrush lOut (crushBits s) else lOut);
               rOut = (if enableBitcrush s then bitcrush rOut (crushBits s) else rOut);
               lc = (if enableCompressor s then compressor (lLpAccum s) lOut (5 / 100)
                     else (lLpAccum s, lOut));
               rc = (if enableCompressor s then compressor (rLpAccum s) rOut (5 / 100)
                     else (rLpAccum s, rOut))
           in ((snd lc, snd rc),
               s\<lparr>voices := (voices s)[voiceIdx := v'], lLpAccum := fst lc, rLpAccum := fst rc\<rparr>))"

subsection \<open>One frame of the render loop (lines 307-321)\<close>

text \<open>
  The inner loop of \<^verbatim>\<open>audioCallback\<close>: every slot is rendered in the order
  \<open>0, \<dots>, NUM_VOICES - 1\<close>, scaled by \<open>0.25\<close> and added to the frame.
\<close>

definition mixVoice :: "real \<Rightarrow> nat \<Rightarrow> (real \<times> real) \<times> synth \<Rightarrow> (real \<times> real) \<times> synth" where
  "mixVoice sampleTime j acc =
     (let res = getVoiceSample (snd acc) j sampleTime;
          l = fst (fst res) * (25 / 100);
          r = snd (fst res) * (25 / 100)
      in ((fst (fst acc) + l, snd (fst acc) + r), snd res))"

definition audioCallbackFrame :: "synth \<Rightarrow> real \<Rightarrow> (real \<times> real) \<times> synth" where
  "audioCallbackFrame s sampleTime = fold (mixVoice sampleTime) [0..<NUM_VOICES] ((0, 0), s)"

subsection \<open>Predicates used to state the properties\<close>

text \<open>Slot \<open>i\<close> holds note \<open>n\<close>: its note matches and its gate is positive.\<close>

definition held :: "PolyphonicVoice list \<Rightarrow> int \<Rightarrow> nat \<Rightarrow> bool" where
  "held vs n i = (note (vs ! i) = n \<and> volume (vs ! i) > 0)"


text \<open>No note is held by two slots.\<close>

definition singleHolder :: "PolyphonicVoice list \<Rightarrow> bool" where
  "singleHolder vs =
     (\<forall>m. \<forall>i<NUM_VOICES. \<forall>j<NUM_VOICES. held vs m i \<longrightarrow> held vs m j \<longrightarrow> i = j)"

section \<open>Properties\<close>

subsection \<open>The voice pool and the note events\<close>







lemma noteAlreadyDown_iff: "noteAlreadyDown vs n \<longleftrightarrow> (\<exists>i<NUM_VOICES. held vs n i)"
proof -
  let ?P = "\<lambda>i. volume (vs ! i) > 0 \<and> note (vs ! i) = n"
  have "noteAlreadyDown vs n \<longleftrightarrow> find ?P [0..<NUM_VOICES] \<noteq> None"
    by (simp add: noteAlreadyDown_def split: option.splits)
  also have "\<dots> \<longleftrightarrow> (\<exists>i<NUM_VOICES. held vs n i)"
    by (auto simp: find_None_iff held_def)
  finally show ?thesis .
qed

lemma getFreeVoiceIdx_less: "getFreeVoiceIdx vs < NUM_VOICES"
proof (cases "find (\<lambda>i. finishedPlaying (vs ! i)) [0..<NUM_VOICES]")
  case None
  then show ?thesis by (simp add: getFreeVoiceIdx_def NUM_VOICES_def)
next
  case (Some i)
  then have "i \<in> set [0..<NUM_VOICES]" by (auto simp: find_Some_iff)
  with Some show ?thesis by (simp add: getFreeVoiceIdx_def)
qed

lemma getFreeVoiceIdx_exhausted:
  assumes "\<forall>i<NUM_VOICES. \<not> finishedPlaying (vs ! i)"
  shows "getFreeVoiceIdx vs = 0"
proof -
  have "find (\<lambda>i. finishedPlaying (vs ! i)) [0..<NUM_VOICES] = None"
    using assms by (simp add: find_None_iff)
  then show ?thesis by (simp add: getFreeVoiceIdx_def)
qed


lemma setNoteOn_fresh:
  assumes "\<not> noteAlreadyDown vs n"
  shows "setNoteOn n t vs =
         vs[getFreeVoiceIdx vs := (vs ! getFreeVoiceIdx vs)
              \<lparr>note := n, freq := pitch (real_of_int n), volume := 1, pressTime := t,
               finishedPlaying := False\<rparr>]"
  using assms by (simp add: setNoteOn_def Let_def)

lemma held_setNoteOn_fresh:
  assumes "\<not> noteAlreadyDown vs n" "length vs = NUM_VOICES" "j < NUM_VOICES"
  shows "held (setNoteOn n t vs) m j \<longleftrightarrow>
         (if j = getFreeVoiceIdx vs then m = n else held vs m j)"
  using assms getFreeVoiceIdx_less[of vs]
  by (auto simp: setNoteOn_fresh held_def)


lemma singleHolder_setNoteOn:
  assumes "singleHolder vs" "length vs = NUM_VOICES"
  shows "singleHolder (setNoteOn n t vs)"
proof (cases "noteAlreadyDown vs n")
  case True
  then show ?thesis using assms(1) by (simp add: setNoteOn_def)
next
  case False
  note h = held_setNoteOn_fresh[OF False assms(2)]
  show ?thesis
    unfolding singleHolder_def
  proof (intro allI impI)
    fix m i j
    assume ij: "i < NUM_VOICES" "j < NUM_VOICES"
      and hi: "held (setNoteOn n t vs) m i" and hj: "held (setNoteOn n t vs) m j"
    show "i = j"
    proof (cases "m = n")
      case True
      with hi hj h[OF ij(1), of t m] h[OF ij(2), of t m] False ij
      show ?thesis by (auto simp: noteAlreadyDown_iff split: if_splits)
    next
      case False
      with hi hj h[OF ij(1), of t m] h[OF ij(2), of t m] ij assms(1)
      show ?thesis by (auto simp: singleHolder_def split: if_splits)
    qed
  qed
qed

text \<open>
  Claim C6. Let note \<open>n\<close> not be held, so that \<open>setNoteOn n t\<close> takes effect. A second
  \<open>setNoteOn n t'\<close> with \<open>t < t'\<close> returns the pool unchanged; exactly one slot then holds
  \<open>n\<close>, its \<open>pressTime\<close> is still \<open>t\<close> and it is not finished; and if no note was held by
  two slots before, none is afterwards.
\<close>

theorem noteOn_twice:
  assumes "length vs = NUM_VOICES" and "\<not> noteAlreadyDown vs n" and "t < t'"
  shows "setNoteOn n t' (setNoteOn n t vs) = setNoteOn n t vs
       \<and> (\<exists>!i. i < NUM_VOICES \<and> held (setNoteOn n t' (setNoteOn n t vs)) n i)
       \<and> (\<forall>i<NUM_VOICES. held (setNoteOn n t' (setNoteOn n t vs)) n i \<longrightarrow>
             pressTime (setNoteOn n t' (setNoteOn n t vs) ! i) = t
           \<and> \<not> finishedPlaying (setNoteOn n t' (setNoteOn n t vs) ! i))
       \<and> (singleHolder vs \<longrightarrow> singleHolder (setNoteOn n t' (setNoteOn n t vs)))"
proof -
  let ?s = "getFreeVoiceIdx vs"
  let ?vs1 = "setNoteOn n t vs"
  have s: "?s < NUM_VOICES" by (rule getFreeVoiceIdx_less)
  note h = held_setNoteOn_fresh[OF assms(2,1)]
  have hs: "held ?vs1 n ?s" using h[OF s, of t n] by simp
  then have down: "noteAlreadyDown ?vs1 n" using s by (auto simp: noteAlreadyDown_iff)
  then have same: "setNoteOn n t' ?vs1 = ?vs1" by (simp add: setNoteOn_def)
  have only: "i = ?s" if "i < NUM_VOICES" "held ?vs1 n i" for i
    using that h[OF that(1), of t n] assms(2) by (auto simp: noteAlreadyDown_iff split: if_splits)
  have uniq: "\<exists>!i. i < NUM_VOICES \<and> held ?vs1 n i"
    using hs s only by blast
  have press: "pressTime (?vs1 ! ?s) = t \<and> \<not> finishedPlaying (?vs1 ! ?s)"
    using s assms(1,2) by (simp add: setNoteOn_fresh)
  have inv: "singleHolder vs \<longrightarrow> singleHolder ?vs1"
    using singleHolder_setNoteOn[OF _ assms(1)] by blast
  show ?thesis
    unfolding same using uniq press only inv by blast
qed

text \<open>
  Claim C7. When no slot of the 16-slot pool is finished, \<open>getFreeVoiceIdx\<close> returns 0;
  a note-on of a note that is not held then overwrites slot 0 with the new note and
  leaves every other slot as it was. The pool is returned as usual: nothing reports
  the exhaustion.
\<close>

theorem voice_exhaustion:
  assumes "length vs = NUM_VOICES" and "\<forall>i<NUM_VOICES. \<not> finishedPlaying (vs ! i)"
  shows "getFreeVoiceIdx vs = 0
       \<and> (\<not> noteAlreadyDown vs n \<longrightarrow>
            setNoteOn n t vs =
              vs[0 := (vs ! 0)\<lparr>note := n, freq := pitch (real_of_int n), volume := 1,
                               pressTime := t, finishedPlaying := False\<rparr>]
          \<and> note (setNoteOn n t vs ! 0) = n
          \<and> (\<forall>i<NUM_VOICES. 0 < i \<longrightarrow> setNoteOn n t vs ! i = vs ! i))"
proof -
  have z: "getFreeVoiceIdx vs = 0" by (rule getFreeVoiceIdx_exhausted[OF assms(2)])
  have l: "0 < length vs" using assms(1) by (simp add: NUM_VOICES_def)
  show ?thesis
    using z l by (simp add: setNoteOn_fresh)
qed






lemma length_initialVoices: "length initialVoices = NUM_VOICES"
  by (simp add: initialVoices_def)

lemma initialVoices_nth: "i < NUM_VOICES \<Longrightarrow> initialVoices ! i = zeroVoice"
  by (simp add: initialVoices_def)

lemma not_held_initial: "i < NUM_VOICES \<Longrightarrow> \<not> held initialVoices n i"
  by (simp add: held_def initialVoices_nth zeroVoice_def)

lemma noteAlreadyDown_initial: "\<not> noteAlreadyDown initialVoices n"
  by (simp add: noteAlreadyDown_iff not_held_initial)

text \<open>The hypotheses of C6 hold at process start, for note 60 pressed at times 0 and 1.\<close>

theorem noteOn_twice_witness:
  "length initialVoices = NUM_VOICES \<and> \<not> noteAlreadyDown initialVoices 60 \<and> (0::real) < 1
   \<and> setNoteOn 60 1 (setNoteOn 60 0 initialVoices) = setNoteOn 60 0 initialVoices
   \<and> (\<exists>!i. i < NUM_VOICES \<and> held (setNoteOn 60 1 (setNoteOn 60 0 initialVoices)) 60 i)
   \<and> held (setNoteOn 60 1 (setNoteOn 60 0 initialVoices)) 60 0
   \<and> pressTime (setNoteOn 60 1 (setNoteOn 60 0 initialVoices) ! 0) = 0"
proof -
  have a: "length initialVoices = NUM_VOICES" by (rule length_initialVoices)
  have b: "\<not> noteAlreadyDown initialVoices 60" by (rule noteAlreadyDown_initial)
  have c: "(0::real) < 1" by simp
  have n: "0 < NUM_VOICES" by (simp add: NUM_VOICES_def)
  have z: "getFreeVoiceIdx initialVoices = 0"
    by (rule getFreeVoiceIdx_exhausted) (simp add: initialVoices_nth zeroVoice_def)
  have h: "held (setNoteOn 60 0 initialVoices) 60 0"
    using held_setNoteOn_fresh[OF b a n, of 0 60] z by simp
  note th = noteOn_twice[OF a b c]
  have e: "setNoteOn 60 1 (setNoteOn 60 0 initialVoices) = setNoteOn 60 0 initialVoices"
    by (rule th[THEN conjunct1])
  have u: "\<exists>!i. i < NUM_VOICES \<and> held (setNoteOn 60 1 (setNoteOn 60 0 initialVoices)) 60 i"
    by (rule th[THEN conjunct2, THEN conjunct1])
  have h2: "held (setNoteOn 60 1 (setNoteOn 60 0 initialVoices)) 60 0"
    using h e by simp
  have p: "pressTime (setNoteOn 60 1 (setNoteOn 60 0 initialVoices) ! 0) = 0"
    using th[THEN conjunct2, THEN conjunct2, THEN conjunct1] h2 n by blast
  from a b c e u h2 p show ?thesis by (intro conjI)
qed


text \<open>
  A pool whose 16 slots hold the notes 60 to 75: note 76, the seventeenth, lands in
  slot 0.
\<close>

theorem voice_exhaustion_witness:
  "length (map (\<lambda>k. \<lparr>note = 60 + int k, finishedPlaying = False, freq = pitch (60 + real k),
                     volume = 1, pressTime = 0, releaseTime = 0\<rparr>) [0..<NUM_VOICES]) = NUM_VOICES
   \<and> getFreeVoiceIdx (map (\<lambda>k. \<lparr>note = 60 + int k, finishedPlaying = False, freq = pitch (60 + real k),
                     volume = 1, pressTime = 0, releaseTime = 0\<rparr>) [0..<NUM_VOICES]) = 0
   \<and> note (setNoteOn 76 5 (map (\<lambda>k. \<lparr>note = 60 + int k, finishedPlaying = False, freq = pitch (60 + real k),
                     volume = 1, pressTime = 0, releaseTime = 0\<rparr>) [0..<NUM_VOICES]) ! 0) = 76"
proof -
  let ?vs = "map (\<lambda>k. \<lparr>note = 60 + int k, finishedPlaying = False, freq = pitch (60 + real k),
                     volume = 1, pressTime = 0, releaseTime = 0\<rparr>) [0..<NUM_VOICES]"
  have a: "length ?vs = NUM_VOICES" by simp
  have b: "\<forall>i<NUM_VOICES. \<not> finishedPlaying (?vs ! i)" by simp
  have c: "\<not> noteAlreadyDown ?vs 76"
    by (auto simp: noteAlreadyDown_iff held_def NUM_VOICES_def)
  from voice_exhaustion[OF a b, of 76 5] a c show ?thesis by blast
qed

subsection \<open>The envelope\<close>

lemma clamp_unit: "clamp x 0 1 = (if x < 0 then 0 else if x > 1 then 1 else x)"
  by (simp add: clamp_def min_d_def max_d_def)

lemma ads_attack:
  assumes "0 < attackTime c" "0 < decayTime c" "0 \<le> t" "t \<le> attackTime c"
  shows "getADSAttenuation c t = t / attackTime c"
  using assms
  by (simp add: getADSAttenuation_def Let_def clamp_unit lerp_def divide_less_0_iff
      zero_less_divide_iff not_less divide_le_0_iff)

lemma ads_decay:
  assumes "0 < attackTime c" "0 < decayTime c" "attackTime c < t" "t \<le> attackTime c + decayTime c"
  shows "getADSAttenuation c t = 1 + (sustainAmount c - 1) * ((t - attackTime c) / decayTime c)"
  using assms
  by (simp add: getADSAttenuation_def Let_def clamp_unit lerp_def divide_less_0_iff
      zero_less_divide_iff not_less divide_le_0_iff)

lemma ads_sustain:
  assumes "0 < attackTime c" "0 < decayTime c" "attackTime c + decayTime c \<le> t"
  shows "getADSAttenuation c t = sustainAmount c"
proof -
  have p: "1 \<le> (t - attackTime c) / decayTime c"
    using assms by (simp add: le_divide_eq)
  have q: "1 \<le> t / attackTime c"
    using assms by (simp add: le_divide_eq)
  have cl: "clamp x 0 1 = 1" if "1 \<le> x" for x
    using that by (simp add: clamp_unit)
  show ?thesis
    by (simp add: getADSAttenuation_def Let_def cl[OF p] cl[OF q] lerp_def)
qed

text \<open>
  Claim C9, amended. For every curve with positive attack time, decay time and sustain
  level, and sustain level at most 1: the ADS attenuation is non-decreasing in the
  elapsed time on \<open>[0, attackTime]\<close>, non-increasing on
  \<open>(attackTime, attackTime + decayTime]\<close>, equal to the sustain level at
  \<open>attackTime + decayTime\<close> and at every later time. The equality is exact over the
  reals; the code reaches the sustain level within floating tolerance.
\<close>

theorem ads_envelope_shape:
  assumes "0 < attackTime c" and "0 < decayTime c" and "0 < sustainAmount c"
    and "sustainAmount c \<le> 1"
  shows "(\<forall>t1 t2. 0 \<le> t1 \<and> t1 \<le> t2 \<and> t2 \<le> attackTime c \<longrightarrow>
            getADSAttenuation c t1 \<le> getADSAttenuation c t2)
       \<and> (\<forall>t1 t2. attackTime c < t1 \<and> t1 \<le> t2 \<and> t2 \<le> attackTime c + decayTime c \<longrightarrow>
            getADSAttenuation c t2 \<le> getADSAttenuation c t1)
       \<and> getADSAttenuation c (attackTime c + decayTime c) = sustainAmount c
       \<and> (\<forall>t. attackTime c + decayTime c \<le> t \<longrightarrow> getADSAttenuation c t = sustainAmount c)"
proof (intro conjI allI impI)
  fix t1 t2 assume "0 \<le> t1 \<and> t1 \<le> t2 \<and> t2 \<le> attackTime c"
  then show "getADSAttenuation c t1 \<le> getADSAttenuation c t2"
    using assms(1,2) by (simp add: ads_attack divide_right_mono)
next
  fix t1 t2 assume h: "attackTime c < t1 \<and> t1 \<le> t2 \<and> t2 \<le> attackTime c + decayTime c"
  then have "(t1 - attackTime c) / decayTime c \<le> (t2 - attackTime c) / decayTime c"
    using assms(2) by (simp add: divide_right_mono)
  then have "(sustainAmount c - 1) * ((t2 - attackTime c) / decayTime c)
           \<le> (sustainAmount c - 1) * ((t1 - attackTime c) / decayTime c)"
    using assms(4) by (intro mult_left_mono_neg) auto
  then show "getADSAttenuation c t2 \<le> getADSAttenuation c t1"
    using assms(1,2) h by (simp add: ads_decay)
next
  show "getADSAttenuation c (attackTime c + decayTime c) = sustainAmount c"
    using assms(1,2) by (simp add: ads_sustain)
next
  fix t assume "attackTime c + decayTime c \<le> t"
  then show "getADSAttenuation c t = sustainAmount c"
    using assms(1,2) by (simp add: ads_sustain)
qed

text \<open>
  Claim C9 as stated, for every positive parameter set, fails when the sustain level
  exceeds 1: with attack 1, decay 1 and sustain 2 the attenuation rises from \<open>3/2\<close> to
  \<open>2\<close> inside the decay interval \<open>(1, 2]\<close>.
\<close>

theorem ads_decay_counterexample:
  "getADSAttenuation \<lparr>attackTime = 1, ADSRCurve.releaseTime = 1, sustainAmount = 2, decayTime = 1\<rparr> (3 / 2)
   < getADSAttenuation \<lparr>attackTime = 1, ADSRCurve.releaseTime = 1, sustainAmount = 2, decayTime = 1\<rparr> 2"
  by (simp add: getADSAttenuation_def Let_def clamp_unit lerp_def)

text \<open>The default curve of the code satisfies the hypotheses of C9.\<close>

theorem ads_envelope_shape_witness:
  "0 < attackTime defaultCurve \<and> 0 < decayTime defaultCurve \<and> 0 < sustainAmount defaultCurve
   \<and> sustainAmount defaultCurve \<le> 1
   \<and> getADSAttenuation defaultCurve (1 / 200) \<le> getADSAttenuation defaultCurve (1 / 100)
   \<and> getADSAttenuation defaultCurve (1 / 2) \<le> getADSAttenuation defaultCurve (1 / 10)
   \<and> getADSAttenuation defaultCurve (66 / 100) = 8 / 10
   \<and> getADSAttenuation defaultCurve 5 = 8 / 10"
proof -
  have a: "0 < attackTime defaultCurve" "0 < decayTime defaultCurve"
    "0 < sustainAmount defaultCurve" "sustainAmount defaultCurve \<le> 1"
    by (simp_all add: defaultCurve_def)
  note th = ads_envelope_shape[OF a]
  have 1: "getADSAttenuation defaultCurve (1 / 200) \<le> getADSAttenuation defaultCurve (1 / 100)"
    using th[THEN conjunct1, rule_format, of "1/200" "1/100"] by (simp add: defaultCurve_def)
  have 2: "getADSAttenuation defaultCurve (1 / 2) \<le> getADSAttenuation defaultCurve (1 / 10)"
    using th[THEN conjunct2, THEN conjunct1, rule_format, of "1/10" "1/2"]
    by (simp add: defaultCurve_def)
  have 3: "getADSAttenuation defaultCurve (66 / 100) = 8 / 10"
    using th[THEN conjunct2, THEN conjunct2, THEN conjunct1] by (simp add: defaultCurve_def)
  have 4: "getADSAttenuation defaultCurve 5 = 8 / 10"
    using th[THEN conjunct2, THEN conjunct2, THEN conjunct2, rule_format, of 5]
    by (simp add: defaultCurve_def)
  from a 1 2 3 4 show ?thesis by (intro conjI)
qed


subsection \<open>The wave functions\<close>

lemma fmod_unit_nonneg:
  assumes "0 \<le> x"
  shows "0 \<le> fmod x 1 \<and> fmod x 1 < 1"
proof -
  have "fmod x 1 = x - real_of_int \<lfloor>x\<rfloor>"
    using assms by (simp add: fmod_def truncToInt_def)
  then show ?thesis by linarith
qed

lemma saw_bounded:
  assumes "0 \<le> t * fr"
  shows "\<bar>saw t fr\<bar> \<le> 1"
  using fmod_unit_nonneg[OF assms] by (simp add: saw_def abs_le_iff)

lemma sine_bounded: "\<bar>sine t fr\<bar> \<le> 1"
  by (simp add: sine_def)

lemma square_bounded: "\<bar>square t fr\<bar> \<le> 1"
  by (simp add: square_def)

lemma triangle_bounded:
  assumes "0 \<le> t * fr"
  shows "\<bar>triangle t fr\<bar> \<le> 1"
  using saw_bounded[OF assms] by (simp add: triangle_def abs_le_iff)

text \<open>
  Where the bound holds: for all \<open>t\<close> and \<open>fr\<close> with \<open>0 \<le> t * fr\<close>, each of the four
  generators returns a sample of absolute value at most 1; \<open>sine\<close> and \<open>square\<close> do so
  for all inputs.
\<close>

lemma waveforms_bounded:
  assumes "0 \<le> t * fr"
  shows "\<bar>waveFuncs w t fr\<bar> \<le> 1 \<and> \<bar>sine t' fr'\<bar> \<le> 1 \<and> \<bar>square t' fr'\<bar> \<le> 1"
  using assms
  by (cases w) (simp_all add: saw_bounded sine_bounded square_bounded triangle_bounded)

lemma sin_15_16_ge_half: "1 / 2 \<le> sin (15 / 16 :: real)"
proof -
  have p1: "pi / 6 \<le> (15 / 16 :: real)" using pi_less_4 by simp
  have p2: "(15 / 16 :: real) \<le> pi / 2" using pi_ge_two by simp
  have p3: "- (pi / 2) \<le> pi / 6" using pi_gt_zero by simp
  have "sin (pi / 6) \<le> sin (15 / 16 :: real)"
    using p1 p2 p3 by (intro sin_monotone_2pi_le) auto
  then show ?thesis by (simp add: sin_30)
qed

lemma saw_negative_phase:
  assumes "- 1 < x" "x < 0"
  shows "fmod x 1 = x"
proof -
  have "\<lceil>x\<rceil> = 0" using assms by (intro ceiling_unique) simp_all
  then show ?thesis using assms by (simp add: fmod_def truncToInt_def)
qed

text \<open>
  Claim C4: the code at the failing inputs. \<open>fmod\<close> keeps the sign of \<open>t * fr\<close>, so
  \<open>saw\<close> and \<open>triangle\<close> leave \<open>[-1, 1]\<close> where \<open>t * fr\<close> is negative: at \<open>t = -1/2\<close>,
  \<open>fr = 1\<close> the sawtooth is \<open>-2\<close> and the triangle is \<open>3\<close>. The unison engine reaches
  such inputs at positive times: the detune amount has no lower bound, and with order 16
  and detune amount \<open>-0.15\<close> tap 15 of a voice at 440 Hz has a negative frequency; at
  sample time \<open>1/880\<close> its sawtooth is below \<open>-1\<close> and its triangle above \<open>1\<close>.
\<close>

theorem saw_at_failing_input:
  "saw (- (1 / 2)) 1 = - 2
   \<and> triangle (- (1 / 2)) 1 = 3
   \<and> 440 + 440 * getDetune (initialSynth\<lparr>unisonDetuneAmount := - (3 / 20)\<rparr>) 15
                     (unisonDetuneAmount (initialSynth\<lparr>unisonDetuneAmount := - (3 / 20)\<rparr>)) < 0
   \<and> unisonVoiceSample (initialSynth\<lparr>unisonDetuneAmount := - (3 / 20)\<rparr>) (1 / 880) 440 saw 15 < - 1
   \<and> 1 < unisonVoiceSample (initialSynth\<lparr>unisonDetuneAmount := - (3 / 20)\<rparr>) (1 / 880) 440 triangle 15"
proof -
  let ?s = "initialSynth\<lparr>unisonDetuneAmount := - (3 / 20)\<rparr>"
  let ?f = "440 + 440 * getDetune ?s 15 (unisonDetuneAmount ?s)"
  have c: "\<lceil>- (1 / 2 :: real)\<rceil> = 0" by (rule ceiling_unique) simp_all
  have 1: "saw (- (1 / 2)) 1 = - 2"
    by (simp add: saw_def fmod_def truncToInt_def c)
  then have 2: "triangle (- (1 / 2)) 1 = 3" by (simp add: triangle_def)
  have d: "getDetune ?s 15 x = 15 * (sin (15 / 16) * x)" for x
    by (simp add: getDetune_def Let_def initialSynth_def)
  have s1: "sin (15 / 16 :: real) \<le> 1" by simp
  have f: "?f = 440 * (1 - 9 / 4 * sin (15 / 16))" by (simp add: d)
  have 3: "?f < 0" unfolding f using sin_15_16_ge_half by simp
  have s2: "3 * sin (15 / 16 :: real) < 4" using s1 by linarith
  have lo: "- 1 < (1 / 880) * ?f" unfolding f using s2 by simp
  have hi: "(1 / 880) * ?f < 0" unfolding f using sin_15_16_ge_half by simp
  have sw: "saw (1 / 880) ?f = (1 / 880) * ?f * 2 - 1"
    unfolding saw_def using saw_negative_phase[OF lo hi] by simp
  have u: "unisonVoiceSample ?s (1 / 880) 440 w 15 = w (1 / 880) ?f" for w
    by (simp add: unisonVoiceSample_def initialSynth_def)
  have 4: "unisonVoiceSample ?s (1 / 880) 440 saw 15 < - 1"
    unfolding u sw using hi by linarith
  have 5: "1 < unisonVoiceSample ?s (1 / 880) 440 triangle 15"
    using 4 unfolding u triangle_def by linarith
  from 1 2 3 4 5 show ?thesis by (intro conjI)
qed

subsection \<open>Bit-crush\<close>

text \<open>
  Claim C2: the code at the failing inputs. With 16 bits the sample \<open>-1\<close> is returned as
  \<open>0\<close>, at distance 1 from the input; with 1 bit the samples \<open>-1\<close>, \<open>0\<close> and \<open>1\<close> are
  returned as the three levels \<open>0\<close>, \<open>1/2\<close> and \<open>1\<close>.
\<close>

theorem bitcrush_at_failing_inputs:
  "bitcrush (- 1) 16 = 0 \<and> bitcrush 1 16 = 1
   \<and> bitcrush (- 1) 1 = 0 \<and> bitcrush 0 1 = 1 / 2 \<and> bitcrush 1 1 = 1"
  by (simp add: bitcrush_def Let_def roundToInt_def castToInt_def truncToInt_def)

text \<open>
  What \<open>bitcrush\<close> computes for a sample \<open>v \<ge> -1\<close>, as long as the rounded value fits
  a 32-bit \<^verbatim>\<open>int\<close>: the multiple of \<open>1 / 2^bits\<close> nearest to \<open>(v + 1) / 2\<close>. The result
  is not mapped back to \<open>[-1, 1]\<close>.
\<close>

lemma roundToInt_nonneg:
  assumes "0 \<le> x" and "x + 1 / 2 < 2 ^ 31"
  shows "\<bar>real_of_int (roundToInt x) - x\<bar> \<le> 1 / 2"
proof -
  have t: "truncToInt (x + 1 / 2) = \<lfloor>x + 1 / 2\<rfloor>"
    using assms(1) by (simp add: truncToInt_def)
  have lo: "0 \<le> \<lfloor>x + 1 / 2\<rfloor>"
    using assms(1) by simp
  have "\<lfloor>x + 1 / 2\<rfloor> < 2 ^ 31"
    using assms(2) by (simp add: floor_less_iff)
  with lo t have "roundToInt x = \<lfloor>x + 1 / 2\<rfloor>"
    using assms(1) by (simp add: roundToInt_def castToInt_def)
  then show ?thesis by linarith
qed

lemma bitcrush_error:
  assumes "- 1 \<le> v" and "(v + 1) * (1 / 2) * 2 powr bits + 1 / 2 < 2 ^ 31"
  shows "\<bar>bitcrush v bits - (v + 1) / 2\<bar> \<le> 1 / (2 * 2 powr bits)"
proof -
  let ?D = "2 powr bits"
  have D: "0 < ?D" by simp
  have x: "0 \<le> (v + 1) * (1 / 2) * ?D" using assms(1) by simp
  have "bitcrush v bits - (v + 1) / 2
        = (real_of_int (roundToInt ((v + 1) * (1 / 2) * ?D)) - (v + 1) * (1 / 2) * ?D) / ?D"
    using D by (simp add: bitcrush_def Let_def field_simps)
  then have "\<bar>bitcrush v bits - (v + 1) / 2\<bar>
        = \<bar>real_of_int (roundToInt ((v + 1) * (1 / 2) * ?D)) - (v + 1) * (1 / 2) * ?D\<bar> / ?D"
    using D by (simp add: abs_divide)
  also have "\<dots> \<le> (1 / 2) / ?D"
    using roundToInt_nonneg[OF x assms(2)] D by (intro divide_right_mono) auto
  finally show ?thesis by simp
qed

text \<open>
  At 31 bits, which the key handler allows, the conversion leaves the range of
  \<^verbatim>\<open>int\<close>: the sample \<open>1\<close> is returned as \<open>-1\<close>.
\<close>

lemma bitcrush_31_bits: "bitcrush 1 31 = - 1"
  by (simp add: bitcrush_def Let_def roundToInt_def castToInt_def truncToInt_def)

subsection \<open>The compressor\<close>

lemma compressor_eq:
  "compressor accum val magic =
     (accum, (1 - \<bar>val - magic * (val - accum)\<bar>) * (val - magic * (val - accum)))"
  by (simp add: compressor_def lowpass_def Let_def)

lemma getVoiceSample_accums:
  "lLpAccum (snd (getVoiceSample s j t)) = lLpAccum s
   \<and> rLpAccum (snd (getVoiceSample s j t)) = rLpAccum s"
  by (simp add: getVoiceSample_def Let_def compressor_eq)

lemma fold_mixVoice_accums:
  "lLpAccum (snd (fold (mixVoice t) js acc)) = lLpAccum (snd acc)
   \<and> rLpAccum (snd (fold (mixVoice t) js acc)) = rLpAccum (snd acc)"
  by (induction js arbitrary: acc) (simp_all add: mixVoice_def Let_def getVoiceSample_accums)

text \<open>
  Claim C1: the code at the failing input, and what it does for every input. With
  accumulator \<open>0\<close>, sample \<open>1\<close> and coefficient \<open>0.05\<close> the accumulator stays \<open>0\<close> and the
  emitted sample is \<open>19/400\<close>. In general \<open>compressor\<close> returns its accumulator
  unchanged and emits \<open>(1 - |val'|) * val'\<close> for \<open>val' = val - magic * (val - accum)\<close>;
  neither \<open>getVoiceSample\<close> nor a whole frame of the render loop changes
  \<open>lLpAccum\<close> or \<open>rLpAccum\<close>.
\<close>

theorem compressor_accumulator_never_written:
  "compressor 0 1 (5 / 100) = (0, 19 / 400)
   \<and> fst (compressor accum val magic) = accum
   \<and> snd (compressor accum val magic)
       = (1 - \<bar>val - magic * (val - accum)\<bar>) * (val - magic * (val - accum))
   \<and> lLpAccum (snd (getVoiceSample s j t)) = lLpAccum s
   \<and> rLpAccum (snd (getVoiceSample s j t)) = rLpAccum s
   \<and> lLpAccum (snd (audioCallbackFrame s t)) = lLpAccum s
   \<and> rLpAccum (snd (audioCallbackFrame s t)) = rLpAccum s"
  by (simp add: compressor_eq getVoiceSample_accums audioCallbackFrame_def fold_mixVoice_accums)

subsection \<open>Unison detune\<close>

lemma sdiv_nonneg: "0 \<le> a \<Longrightarrow> a sdiv 2 = a div (2::int)"
  by (simp add: signed_divide_int_def sgn_if)

lemma getDetune_eq:
  assumes "0 < unisonOrder s"
  shows "getDetune s x d =
     (if goofyUnison s
      then (x - real_of_int (unisonOrder s div 2)) * (d / real_of_int (unisonOrder s))
      else x * sin (x / real_of_int (unisonOrder s)) * d)"
  using assms by (simp add: getDetune_def Let_def sdiv_nonneg)

text \<open>
  Claim C3, amended. For a positive unison order and every tap index \<open>i\<close>:
  \<open>getDetune\<close> applied to \<open>i\<close> and a detune \<open>d\<close> is \<open>i * sin (i / order) * d\<close> in normal
  mode and \<open>(i - order div 2) * (d / order)\<close> in goofy mode. The engine passes the
  detune amount in normal mode and the detune amount divided by the order in goofy mode,
  so the goofy offset of a tap is \<open>(i - order div 2) * (detuneAmount / order / order)\<close>.
  The tap is the wave function at the frequency \<open>fr * (1 + offset i)\<close>.
\<close>

theorem unison_tap_detune:
  assumes "0 < unisonOrder s"
  shows "getDetune s (real i) d =
           (if goofyUnison s
            then (real i - real_of_int (unisonOrder s div 2)) * (d / real_of_int (unisonOrder s))
            else real i * sin (real i / real_of_int (unisonOrder s)) * d)
       \<and> unisonVoiceSample s t fr waveFunc i =
           waveFunc t (fr * (1 +
             (if goofyUnison s
              then (real i - real_of_int (unisonOrder s div 2))
                     * (unisonDetuneAmount s / real_of_int (unisonOrder s) / real_of_int (unisonOrder s))
              else real i * sin (real i / real_of_int (unisonOrder s)) * unisonDetuneAmount s)))"
  using assms(1)
  by (simp add: unisonVoiceSample_def getDetune_eq algebra_simps)

text \<open>
  Claim C3 as stated fails in goofy mode. With order 16, detune amount \<open>1/400\<close>, base
  frequency 800 and \<open>t = 1\<close>, tap 0 of the sawtooth is \<open>7/8\<close> (frequency \<open>800 - 1/16\<close>);
  at the frequency \<open>800 * (1 + (0 - 16/2) * (detuneAmount / 16)) = 799\<close> of the claim the
  sawtooth is \<open>-1\<close>.
\<close>

theorem goofy_detune_counterexample:
  "unisonVoiceSample (initialSynth\<lparr>goofyUnison := True\<rparr>) 1 800 saw 0 = 7 / 8
   \<and> saw 1 (800 * (1 + (0 - 16 / 2) * (unisonDetuneAmount (initialSynth\<lparr>goofyUnison := True\<rparr>) / 16)))
       = - 1"
  by (simp add: unisonVoiceSample_def getDetune_def Let_def initialSynth_def
      signed_divide_int_def saw_def fmod_def truncToInt_def)

text \<open>The start-up settings (order 16) satisfy the hypothesis of C3, in both modes.\<close>

theorem unison_tap_detune_witness:
  "0 < unisonOrder (initialSynth\<lparr>goofyUnison := True\<rparr>)
   \<and> getDetune (initialSynth\<lparr>goofyUnison := True\<rparr>) (real 3) (1 / 6400) = - (1 / 20480)
   \<and> unisonVoiceSample (initialSynth\<lparr>goofyUnison := True\<rparr>) 1 440 saw 3
       = saw 1 (440 * (1 - 1 / 20480))
   \<and> unisonVoiceSample initialSynth 1 440 saw 3
       = saw 1 (440 * (1 + 3 * sin (3 / 16) * (25 / 10000)))"
proof -
  have a: "0 < unisonOrder (initialSynth\<lparr>goofyUnison := True\<rparr>)"
    and a': "0 < unisonOrder initialSynth"
    by (simp_all add: initialSynth_def)
  have 1: "getDetune (initialSynth\<lparr>goofyUnison := True\<rparr>) (real 3) (1 / 6400) = - (1 / 20480)"
    using unison_tap_detune[OF a, of 3 "1 / 6400" 1 440 saw, THEN conjunct1]
    by (simp add: initialSynth_def)
  have 2: "unisonVoiceSample (initialSynth\<lparr>goofyUnison := True\<rparr>) 1 440 saw 3
       = saw 1 (440 * (1 - 1 / 20480))"
    using unison_tap_detune[OF a, of 3 0 1 440 saw, THEN conjunct2]
    by (simp add: initialSynth_def)
  have 3: "unisonVoiceSample initialSynth 1 440 saw 3
       = saw 1 (440 * (1 + 3 * sin (3 / 16) * (25 / 10000)))"
    using unison_tap_detune[OF a', of 3 0 1 440 saw, THEN conjunct2]
    by (simp add: initialSynth_def)
  from a 1 2 3 show ?thesis by (intro conjI)
qed

lemma unison_order1_tap:
  assumes "unisonOrder s = 1"
  shows "getDetune s 0 d = 0" and "getUnisonVoicePan s 0 = - 1"
    and "unisonVoiceSample s t fr waveFunc 0 = waveFunc t fr"
  using assms
  by (simp_all add: getDetune_def getUnisonVoicePan_def unisonVoiceSample_def Let_def
      signed_divide_int_def)

lemma doUnisonDetune_order1:
  assumes "unisonOrder s = 1"
  shows "doUnisonDetune s (0, 0) t fr waveFunc = (waveFunc t fr, 0)"
  using assms unison_order1_tap[OF assms]
  by (simp add: doUnisonDetune_def unisonStep_def Let_def panToLVol_def panToRVol_def)

text \<open>
  Claim C5, amended. With unison order 1 the single tap has detune offset 0 and pan
  \<open>-1\<close>, so left gain 1 and right gain 0: the engine returns \<open>(w, 0)\<close>, where \<open>w\<close> is the
  sample of the plain path for the same time, frequency and wave function. The left
  output of the sample stage is the same with and without unison.
\<close>

theorem unison_order1:
  assumes "unisonOrder s = 1"
  shows "getDetune s 0 d = 0
       \<and> getUnisonVoicePan s 0 = - 1
       \<and> panToLVol (getUnisonVoicePan s 0) = 1
       \<and> panToRVol (getUnisonVoicePan s 0) = 0
       \<and> doUnisonDetune s (0, 0) t fr waveFunc = (waveFunc t fr, 0)
       \<and> fst (fst (getVoiceSample (s\<lparr>unisonDetune := True\<rparr>) j t))
           = fst (fst (getVoiceSample (s\<lparr>unisonDetune := False\<rparr>) j t))"
proof -
  have u: "doUnisonDetune (s\<lparr>unisonDetune := True\<rparr>) (0, 0) t' fr' w = (w t' fr', 0)" for t' fr' w
    by (rule doUnisonDetune_order1) (simp add: assms)
  have l: "fst (fst (getVoiceSample (s\<lparr>unisonDetune := True\<rparr>) j t))
           = fst (fst (getVoiceSample (s\<lparr>unisonDetune := False\<rparr>) j t))"
    by (simp add: getVoiceSample_def Let_def u)
  show ?thesis
    using unison_order1_tap(1,2)[OF assms] doUnisonDetune_order1[OF assms] l
    by (simp add: panToLVol_def panToRVol_def)
qed

text \<open>The start-up settings with the order set to 1, for a sawtooth at 440 Hz.\<close>

theorem unison_order1_witness:
  "unisonOrder (initialSynth\<lparr>unisonOrder := 1\<rparr>) = 1
   \<and> getUnisonVoicePan (initialSynth\<lparr>unisonOrder := 1\<rparr>) 0 = - 1
   \<and> doUnisonDetune (initialSynth\<lparr>unisonOrder := 1\<rparr>) (0, 0) (1 / 4) 440 saw = (- 1, 0)"
proof -
  have a: "unisonOrder (initialSynth\<lparr>unisonOrder := 1\<rparr>) = 1" by simp
  have w: "saw (1 / 4) 440 = - 1"
    by (simp add: saw_def fmod_def truncToInt_def)
  note th = unison_order1[OF a, of 0 "1 / 4" 440 saw 0]
  have 1: "getUnisonVoicePan (initialSynth\<lparr>unisonOrder := 1\<rparr>) 0 = - 1"
    by (rule th[THEN conjunct2, THEN conjunct1])
  have 2: "doUnisonDetune (initialSynth\<lparr>unisonOrder := 1\<rparr>) (0, 0) (1 / 4) 440 saw = (- 1, 0)"
    using th[THEN conjunct2, THEN conjunct2, THEN conjunct2, THEN conjunct2, THEN conjunct1] w
    by simp
  from a 1 2 show ?thesis by (intro conjI)
qed

text \<open>
  Claim C5 as stated fails: for a voice at 440 Hz pressed at time 0, rendered as a
  sawtooth at \<open>t = 1/4\<close>, the unison path with order 1 returns \<open>(-301/325, 0)\<close> and the
  plain path \<open>(-301/325, -301/325)\<close>.
\<close>

theorem unison_order1_counterexample:
  "fst (getVoiceSample
         (initialSynth\<lparr>voices := initialVoices[0 := \<lparr>note = 69, finishedPlaying = False, freq = 440,
                           volume = 1, pressTime = 0, releaseTime = 0\<rparr>],
                       unisonDetune := True, unisonOrder := 1, currWaveFunc := W_Saw\<rparr>)
         0 (1 / 4))
     = (- (301 / 325), 0)
   \<and> fst (getVoiceSample
         (initialSynth\<lparr>voices := initialVoices[0 := \<lparr>note = 69, finishedPlaying = False, freq = 440,
                           volume = 1, pressTime = 0, releaseTime = 0\<rparr>],
                       unisonDetune := False, unisonOrder := 1, currWaveFunc := W_Saw\<rparr>)
         0 (1 / 4))
     = (- (301 / 325), - (301 / 325))"
proof -
  have w: "saw (1 / 4) 440 = - 1"
    by (simp add: saw_def fmod_def truncToInt_def)
  have a: "getADSAttenuation defaultCurve (1 / 4) = 301 / 325"
    by (simp add: getADSAttenuation_def Let_def clamp_unit lerp_def defaultCurve_def)
  show ?thesis
    by (simp add: getVoiceSample_def Let_def initialSynth_def initialVoices_def NUM_VOICES_def
        w a doUnisonDetune_order1)
qed


subsection \<open>The pool at process start\<close>

lemma getRAttenuation_done:
  assumes "1 / 10 \<le> e"
  shows "getRAttenuation defaultCurve e = 0"
  using assms by (simp add: getRAttenuation_def defaultCurve_def clamp_unit)

lemma getVoiceSample_released:
  assumes "j < length (voices s)" "\<not> finishedPlaying (voices s ! j)" "volume (voices s ! j) = 0"
    and "1 / 10 \<le> t - releaseTime (voices s ! j)"
  shows "voices (snd (getVoiceSample s j t)) = (voices s)[j := (voices s ! j)\<lparr>finishedPlaying := True\<rparr>]"
  using assms by (simp add: getVoiceSample_def Let_def getRAttenuation_done)

lemma replicate_step:
  assumes "k < n"
  shows "(replicate k a @ replicate (n - k) b)[k := a] = replicate (Suc k) a @ replicate (n - Suc k) b"
  using assms
  by (intro nth_equalityI)
    (auto simp: nth_append nth_list_update less_Suc_eq simp del: replicate.simps)

lemma snd_mixVoice: "snd (mixVoice t j acc) = snd (getVoiceSample (snd acc) j t)"
  by (simp add: mixVoice_def Let_def)

lemma fold_mixVoice_initial:
  assumes "voices (snd acc) = initialVoices" "1 / 10 \<le> t" "k \<le> NUM_VOICES"
  shows "voices (snd (fold (mixVoice t) [0..<k] acc))
         = replicate k (zeroVoice\<lparr>finishedPlaying := True\<rparr>) @ replicate (NUM_VOICES - k) zeroVoice"
  using assms(3)
proof (induction k)
  case 0
  then show ?case using assms(1) by (simp add: initialVoices_def)
next
  case (Suc k)
  let ?s = "snd (fold (mixVoice t) [0..<k] acc)"
  have vs: "voices ?s = replicate k (zeroVoice\<lparr>finishedPlaying := True\<rparr>) @ replicate (NUM_VOICES - k) zeroVoice"
    using Suc by simp
  have k: "k < NUM_VOICES" using Suc.prems by simp
  have nth: "voices ?s ! k = zeroVoice" using vs k by (simp add: nth_append)
  have len: "k < length (voices ?s)" using k by (simp add: vs)
  have z: "\<not> finishedPlaying (voices ?s ! k)" "volume (voices ?s ! k) = 0"
    "1 / 10 \<le> t - releaseTime (voices ?s ! k)"
    using assms(2) by (simp_all add: nth zeroVoice_def)
  have "voices (snd (getVoiceSample ?s k t)) = (voices ?s)[k := (voices ?s ! k)\<lparr>finishedPlaying := True\<rparr>]"
    by (rule getVoiceSample_released[OF len z])
  also have "\<dots> = (replicate k (zeroVoice\<lparr>finishedPlaying := True\<rparr>)
                       @ replicate (NUM_VOICES - k) zeroVoice)[k := zeroVoice\<lparr>finishedPlaying := True\<rparr>]"
    by (subst nth) (simp only: vs)
  also have "\<dots> = replicate (Suc k) (zeroVoice\<lparr>finishedPlaying := True\<rparr>)
                       @ replicate (NUM_VOICES - Suc k) zeroVoice"
    by (rule replicate_step[OF k])
  finally have "voices (snd (getVoiceSample ?s k t))
      = replicate (Suc k) (zeroVoice\<lparr>finishedPlaying := True\<rparr>) @ replicate (NUM_VOICES - Suc k) zeroVoice" .
  then show ?case by (simp add: snd_mixVoice del: replicate.simps)
qed

lemma audioCallbackFrame_initial:
  assumes "voices s = initialVoices" "1 / 10 \<le> t"
  shows "voices (snd (audioCallbackFrame s t)) = replicate NUM_VOICES (zeroVoice\<lparr>finishedPlaying := True\<rparr>)"
  using fold_mixVoice_initial[of "((0, 0), s)" t NUM_VOICES] assms
  by (simp add: audioCallbackFrame_def)

text \<open>
  Claim C8, amended. At process start every voice is zero-initialised: it is not
  finished, its gate is 0 and its release time is 0. No slot is flagged free, so
  \<open>getFreeVoiceIdx\<close> falls back to slot 0. A slot becomes finished when the sample stage
  renders it at a sample time of at least \<open>0.1\<close>, the release time of the curve; one
  frame of the render loop at such a time leaves all 16 slots finished.
\<close>

theorem initial_voices_not_finished:
  "(\<forall>i<NUM_VOICES. \<not> finishedPlaying (initialVoices ! i) \<and> volume (initialVoices ! i) = 0
        \<and> releaseTime (initialVoices ! i) = 0)
   \<and> getFreeVoiceIdx initialVoices = 0
   \<and> (\<forall>i<NUM_VOICES. voices s = initialVoices \<and> 1 / 10 \<le> t \<longrightarrow>
         finishedPlaying (voices (snd (getVoiceSample s i t)) ! i))
   \<and> (\<forall>i<NUM_VOICES. voices s = initialVoices \<and> 1 / 10 \<le> t \<longrightarrow>
         finishedPlaying (voices (snd (audioCallbackFrame s t)) ! i))"
proof -
  have 1: "\<forall>i<NUM_VOICES. \<not> finishedPlaying (initialVoices ! i) \<and> volume (initialVoices ! i) = 0
        \<and> releaseTime (initialVoices ! i) = 0"
    by (simp add: initialVoices_nth zeroVoice_def)
  have 2: "getFreeVoiceIdx initialVoices = 0"
    by (rule getFreeVoiceIdx_exhausted) (simp add: initialVoices_nth zeroVoice_def)
  have 3: "finishedPlaying (voices (snd (getVoiceSample s i t)) ! i)"
    if i: "i < NUM_VOICES" and h: "voices s = initialVoices \<and> 1 / 10 \<le> t" for i
  proof -
    have "voices (snd (getVoiceSample s i t))
          = (voices s)[i := (voices s ! i)\<lparr>finishedPlaying := True\<rparr>]"
      using i h by (intro getVoiceSample_released)
        (simp_all add: length_initialVoices initialVoices_nth zeroVoice_def)
    then show ?thesis
      using i h by (simp add: length_initialVoices)
  qed
  have 4: "finishedPlaying (voices (snd (audioCallbackFrame s t)) ! i)"
    if "i < NUM_VOICES" and "voices s = initialVoices \<and> 1 / 10 \<le> t" for i
    using that by (simp add: audioCallbackFrame_initial)
  from 1 2 3 4 show ?thesis by blast
qed

text \<open>Claim C8 as stated fails: slot 0 is not finished at process start.\<close>

theorem initial_voices_counterexample: "\<not> finishedPlaying (initialVoices ! 0)"
  by (simp add: initialVoices_def NUM_VOICES_def zeroVoice_def)

text \<open>Slot 0 of the start-up state, rendered at sample time 1.\<close>

theorem initial_voices_not_finished_witness:
  "0 < NUM_VOICES \<and> voices initialSynth = initialVoices \<and> (1 / 10 :: real) \<le> 1
   \<and> \<not> finishedPlaying (initialVoices ! 0) \<and> getFreeVoiceIdx initialVoices = 0
   \<and> finishedPlaying (voices (snd (getVoiceSample initialSynth 0 1)) ! 0)
   \<and> finishedPlaying (voices (snd (audioCallbackFrame initialSynth 1)) ! 15)"
proof -
  have n: "0 < NUM_VOICES" by (simp add: NUM_VOICES_def)
  have v: "voices initialSynth = initialVoices" by (simp add: initialSynth_def)
  have t: "(1 / 10 :: real) \<le> 1" by simp
  note th = initial_voices_not_finished[of initialSynth 1]
  have 1: "\<not> finishedPlaying (initialVoices ! 0)"
    using th[THEN conjunct1] n by blast
  have 2: "getFreeVoiceIdx initialVoices = 0"
    by (rule th[THEN conjunct2, THEN conjunct1])
  have 3: "finishedPlaying (voices (snd (getVoiceSample initialSynth 0 1)) ! 0)"
    using th[THEN conjunct2, THEN conjunct2, THEN conjunct1] n v t by blast
  have m: "15 < NUM_VOICES" by (simp add: NUM_VOICES_def)
  have 4: "finishedPlaying (voices (snd (audioCallbackFrame initialSynth 1)) ! 15)"
    using th[THEN conjunct2, THEN conjunct2, THEN conjunct2] m v t by blast
  from n v t 1 2 3 4 show ?thesis by (intro conjI)
qed

end
